theory Spec2Isabelle
  imports Main
begin

section \<open>The task monitor of the angel system\<close>

text \<open>
  A shallow embedding of \<^verbatim>\<open>ros/angel_system_nodes/angel_system_nodes/task_monitor.py\<close>:
  the class \<^verbatim>\<open>Task\<close> (a state machine of the \<^verbatim>\<open>transitions\<close> library) and the
  node \<^verbatim>\<open>TaskMonitor\<close> with its three methods \<^verbatim>\<open>listener_callback\<close>,
  \<^verbatim>\<open>publish_task_state_message\<close> and \<^verbatim>\<open>task_timer_thread\<close>.

  A method becomes a function from the object before the call to an outcome: the object
  after the call, together with the exception that left the method, if any. Python does
  not undo the assignments made before an exception, so a raised outcome carries the
  object as the exception found it.

  The node handles one observation at a time, and the timer thread works on the same
  object. A call of \<^verbatim>\<open>listener_callback\<close>, a pass of the loop of the thread and the
  statements after that loop are each taken as one step on the object; the thread as a
  whole is its passes followed by those statements. What a callback does between two
  passes is what it does in any monitor whose timer is active.
\<close>

subsection \<open>Exceptions and outcomes\<close>

datatype py_error = IndexError | KeyError | ValueError | AttributeError | MachineError

datatype 'a outcome = Returned 'a | Raised py_error 'a

fun final :: "'a outcome \<Rightarrow> 'a" where
  "final (Returned s) = s"
| "final (Raised e s) = s"

fun returns :: "'a outcome \<Rightarrow> bool" where
  "returns (Returned s) = True"
| "returns (Raised e s) = False"

text \<open>Sequencing of two statements: the second runs only when the first returned.\<close>

fun and_then :: "'a outcome \<Rightarrow> ('a \<Rightarrow> 'a outcome) \<Rightarrow> 'a outcome" where
  "and_then (Returned s) f = f s"
| "and_then (Raised e s) f = Raised e s"

subsection \<open>The task: \<^verbatim>\<open>class Task\<close>\<close>

record transition =
  trigger :: string
  source :: string
  dest :: string

text \<open>
  The fields of \<^verbatim>\<open>Task\<close>. A step is the dictionary \<^verbatim>\<open>{'name': n}\<close>, kept as its name.
  \<^verbatim>\<open>machine.states\<close> is the ordered dictionary of the machine, from the name of a state
  to the state object; the only attribute of a state object the monitor reads or writes
  is \<^verbatim>\<open>timer_length\<close>, which is \<open>None\<close> where the attribute was never set. The source
  stores the float \<^verbatim>\<open>20.0\<close> there and only ever subtracts 1 from it and truncates it with
  \<^verbatim>\<open>int\<close>, which on whole numbers is integer arithmetic, so the attribute is an \<open>int\<close>.
  \<^verbatim>\<open>state\<close> is the current state of the machine's model, and \<^verbatim>\<open>to_state_dict\<close> maps a
  state name to the state that the stored \<^verbatim>\<open>to_<state>\<close> method moves to.
\<close>

record Task =
  name :: string
  items :: "(string \<times> int) list"
  description :: string
  steps :: "string list"
  transitions :: "transition list"
  machine_states :: "(string \<times> int option) list"
  state :: string
  to_state_dict :: "(string \<times> string) list"

definition Task_init :: Task where
  "Task_init =
     \<lparr>name = ''Making Tea'',
      items = [(''water bottle'', 1), (''tea bag'', 1), (''cup'', 1)],
      description = ''Open the water bottle and pour the water into a tea cup.'' @
                    '' Place the tea bag in the cup.'' @
                    '' Wait 20 seconds while the tea bag steeps, then drink and enjoy!'',
      steps = [''open_bottle_and_pour_water_into_cup'',
               ''place_tea_bag_into_cup'',
               ''steep_for_20_seconds'',
               ''enjoy''],
      transitions =
        [\<lparr>trigger = ''open_bottle'', source = ''open_bottle_and_pour_water_into_cup'',
          dest = ''place_tea_bag_into_cup''\<rparr>,
         \<lparr>trigger = ''make_tea'', source = ''place_tea_bag_into_cup'',
          dest = ''steep_for_20_seconds''\<rparr>],
      machine_states =
        [(''open_bottle_and_pour_water_into_cup'', None),
         (''place_tea_bag_into_cup'', None),
         (''steep_for_20_seconds'', Some 20),
         (''enjoy'', None)],
      state = ''open_bottle_and_pour_water_into_cup'',
      to_state_dict =
        [(''open_bottle_and_pour_water_into_cup'', ''open_bottle_and_pour_water_into_cup''),
         (''place_tea_bag_into_cup'', ''place_tea_bag_into_cup''),
         (''steep_for_20_seconds'', ''steep_for_20_seconds''),
         (''enjoy'', ''enjoy'')]\<rparr>"

text \<open>
  Calling a trigger method of the model (\<^verbatim>\<open>self._task.open_bottle()\<close>): the library takes
  the first transition of that trigger, in the order of declaration, whose source is the
  current state, and moves to its destination; without one it raises \<^verbatim>\<open>MachineError\<close>.
\<close>

definition fire :: "string \<Rightarrow> Task \<Rightarrow> py_error + Task" where
  "fire trig t =
     (case find (\<lambda>tr. trigger tr = trig \<and> source tr = state t) (transitions t) of
        None \<Rightarrow> Inl MachineError
      | Some tr \<Rightarrow> Inr (t\<lparr>state := dest tr\<rparr>))"

text \<open>\<^verbatim>\<open>self._task.machine.states[self._task.state].timer_length\<close>, read.\<close>

definition timer_length :: "Task \<Rightarrow> py_error + int" where
  "timer_length t =
     (case map_of (machine_states t) (state t) of
        None \<Rightarrow> Inl KeyError
      | Some None \<Rightarrow> Inl AttributeError
      | Some (Some d) \<Rightarrow> Inr d)"

text \<open>The same attribute, assigned: the state object of the current state is updated.\<close>

definition set_timer_length :: "int \<Rightarrow> Task \<Rightarrow> Task" where
  "set_timer_length d t =
     t\<lparr>machine_states :=
         map (\<lambda>(k, v). if k = state t then (k, Some d) else (k, v)) (machine_states t)\<rparr>"

text \<open>\<^verbatim>\<open>list.index\<close>: the position of the first occurrence, \<^verbatim>\<open>ValueError\<close> without one.\<close>

fun index_of :: "'a list \<Rightarrow> 'a \<Rightarrow> nat option" where
  "index_of [] x = None"
| "index_of (y # ys) x = (if y = x then Some 0 else map_option Suc (index_of ys x))"

subsection \<open>The published message and the effects of the node\<close>

text \<open>
  \<^verbatim>\<open>angel_msgs/TaskUpdate\<close>, without the time stamp of its header. \<^verbatim>\<open>next_activity\<close> is
  the value assigned to the field, \<open>None\<close> for Python's \<^verbatim>\<open>None\<close>.
\<close>

record TaskUpdate =
  frame_id :: string
  task_name :: string
  task_description :: string
  task_items :: "(string \<times> int) list"
  msg_steps :: "string list"
  msg_current_step :: string
  msg_previous_step :: string
  msg_current_activity :: string
  msg_next_activity :: "string option"
  time_remaining_until_next_task :: int

text \<open>
  What the node does to the outside, in order: a message published, a trigger method of
  the task called, a \<^verbatim>\<open>to_<state>\<close> method called, a timer thread started.
\<close>

datatype event =
  Published TaskUpdate
| Triggered string
| MovedTo string
| ThreadStarted

record TaskMonitor =
  task :: Task
  current_step :: string
  previous_step :: "string option"
  current_activity :: "string option"
  next_activity :: "string option"
  timer_active :: bool
  activity_action_dict :: "(string \<times> string) list"
  effects :: "event list"

text \<open>\<^verbatim>\<open>s.replace('_', ' ')\<close>\<close>

definition replace_underscores :: "string \<Rightarrow> string" where
  "replace_underscores s = map (\<lambda>c. if c = CHR ''_'' then CHR '' '' else c) s"

definition message :: "TaskMonitor \<Rightarrow> int \<Rightarrow> TaskUpdate" where
  "message m remaining =
     \<lparr>frame_id = ''Task message'',
      task_name = name (task m),
      task_description = description (task m),
      task_items = items (task m),
      msg_steps = map replace_underscores (steps (task m)),
      msg_current_step = replace_underscores (current_step m),
      msg_previous_step = (case previous_step m of None \<Rightarrow> ''N/A'' | Some p \<Rightarrow> p),
      msg_current_activity = (case current_activity m of None \<Rightarrow> ''N/A'' | Some a \<Rightarrow> a),
      msg_next_activity = next_activity m,
      time_remaining_until_next_task = remaining\<rparr>"

text \<open>The loop of \<^verbatim>\<open>publish_task_state_message\<close> over the transitions of the task.\<close>

definition peek_next_activity :: "TaskMonitor \<Rightarrow> string option" where
  "peek_next_activity m =
     (case find (\<lambda>tr. source tr = state (task m)) (transitions (task m)) of
        Some tr \<Rightarrow> Some (trigger tr)
      | None \<Rightarrow> next_activity m)"

definition publish :: "TaskUpdate \<Rightarrow> TaskMonitor \<Rightarrow> TaskMonitor" where
  "publish msg m = m\<lparr>effects := effects m @ [Published msg]\<rparr>"

definition publish_task_state_message :: "TaskMonitor \<Rightarrow> TaskMonitor outcome" where
  "publish_task_state_message m =
     (let m1 = m\<lparr>next_activity := peek_next_activity m\<rparr> in
      case timer_length (task m1) of
        Inr d \<Rightarrow> Returned (publish (message m1 d) m1)
      | Inl e \<Rightarrow>
          if e = AttributeError then Returned (publish (message m1 (- 1)) m1)
          else Raised e m1)"

subsection \<open>\<^verbatim>\<open>listener_callback\<close>\<close>

text \<open>The \<^verbatim>\<open>try\<close> block that calls the trigger method stored for the activity.\<close>

definition attempt_advance :: "string \<Rightarrow> TaskMonitor \<Rightarrow> TaskMonitor outcome" where
  "attempt_advance a m =
     (case map_of (activity_action_dict m) a of
        None \<Rightarrow> Raised KeyError m
      | Some trig \<Rightarrow>
          let m1 = m\<lparr>effects := effects m @ [Triggered trig]\<rparr> in
          (case fire trig (task m1) of
             Inl e \<Rightarrow> if e = MachineError then Returned m1 else Raised e m1
           | Inr t' \<Rightarrow>
               Returned (m1\<lparr>task := t',
                            previous_step := Some (current_step m1),
                            current_step := state t'\<rparr>)))"

text \<open>The \<^verbatim>\<open>try\<close> block that starts a timer thread for a state with a timer.\<close>

definition start_timer :: "TaskMonitor \<Rightarrow> TaskMonitor outcome" where
  "start_timer m =
     (case timer_length (task m) of
        Inr d \<Rightarrow>
          if d > 0 then Returned (m\<lparr>timer_active := True,
                                     effects := effects m @ [ThreadStarted]\<rparr>)
          else Returned m
      | Inl e \<Rightarrow> if e = AttributeError then Returned m else Raised e m)"

text \<open>
  The search through \<^verbatim>\<open>label_vec\<close> for the first label that is a key of
  \<^verbatim>\<open>_activity_action_dict\<close>; \<open>None\<close> when the loop ends without one.
\<close>

definition matched_activity :: "TaskMonitor \<Rightarrow> string list \<Rightarrow> string option" where
  "matched_activity m label_vec =
     find (\<lambda>a. a \<in> set (map fst (activity_action_dict m))) label_vec"

definition listener_callback :: "string list \<Rightarrow> TaskMonitor \<Rightarrow> TaskMonitor outcome" where
  "listener_callback label_vec m =
     (case matched_activity m label_vec of
        None \<Rightarrow>
          (case label_vec of
             [] \<Rightarrow> Raised IndexError m
           | a # _ \<Rightarrow> publish_task_state_message (m\<lparr>current_activity := Some a\<rparr>))
      | Some a \<Rightarrow>
          let m1 = m\<lparr>current_activity := Some a\<rparr> in
          if timer_active m1 then Returned m1
          else and_then (attempt_advance a m1)
                 (\<lambda>m2. and_then (publish_task_state_message m2) start_timer))"

subsection \<open>\<^verbatim>\<open>task_timer_thread\<close>\<close>

text \<open>One pass of the loop: publish, then take one second off the timer of the state.\<close>

definition decrement_timer :: "TaskMonitor \<Rightarrow> TaskMonitor outcome" where
  "decrement_timer m =
     (case timer_length (task m) of
        Inr d \<Rightarrow> Returned (m\<lparr>task := set_timer_length (d - 1) (task m)\<rparr>)
      | Inl e \<Rightarrow> Raised e m)"

definition timer_tick :: "TaskMonitor \<Rightarrow> TaskMonitor outcome" where
  "timer_tick m = and_then (publish_task_state_message m) decrement_timer"

fun timer_loop :: "nat \<Rightarrow> TaskMonitor \<Rightarrow> TaskMonitor outcome" where
  "timer_loop 0 m = Returned m"
| "timer_loop (Suc n) m = and_then (timer_tick m) (timer_loop n)"

text \<open>The statements after the loop: the timer has run out.\<close>

definition timer_expire :: "TaskMonitor \<Rightarrow> TaskMonitor outcome" where
  "timer_expire m =
     (let m1 = m\<lparr>timer_active := False\<rparr>;
          keys = map fst (machine_states (task m1))
      in case index_of keys (state (task m1)) of
           None \<Rightarrow> Raised ValueError m1
         | Some curr_idx \<Rightarrow>
             if curr_idx + 1 < length keys then
               (let next_state = keys ! (curr_idx + 1) in
                case map_of (to_state_dict (task m1)) next_state of
                  None \<Rightarrow> Raised KeyError m1
                | Some target \<Rightarrow>
                    (let m2 = m1\<lparr>task := (task m1)\<lparr>state := target\<rparr>,
                                 effects := effects m1 @ [MovedTo target]\<rparr>;
                         m3 = m2\<lparr>previous_step := Some (current_step m2),
                                 current_step := state (task m2)\<rparr>
                     in publish_task_state_message m3))
             else Raised IndexError m1)"

definition task_timer_thread :: "TaskMonitor \<Rightarrow> TaskMonitor outcome" where
  "task_timer_thread m =
     (case timer_length (task m) of
        Inl e \<Rightarrow> Raised e m
      | Inr loops \<Rightarrow> and_then (timer_loop (nat loops) m) timer_expire)"

subsection \<open>\<^verbatim>\<open>TaskMonitor.__init__\<close>\<close>

definition TaskMonitor_init :: "TaskMonitor outcome" where
  "TaskMonitor_init =
     publish_task_state_message
       \<lparr>task = Task_init,
        current_step = state Task_init,
        previous_step = None,
        current_activity = None,
        next_activity = None,
        timer_active = False,
        activity_action_dict = [(''opening bottle'', ''open_bottle''),
                                (''making tea'', ''make_tea'')],
        effects = []\<rparr>"

subsection \<open>Notions used by the properties\<close>

text \<open>The current state of the task is one of the states of its machine.\<close>

definition state_known :: "Task \<Rightarrow> bool" where
  "state_known t = (state t \<in> set (map fst (machine_states t)))"

text \<open>The number a message reports for the task: the timer of the state, or -1.\<close>

definition remaining_of :: "Task \<Rightarrow> int" where
  "remaining_of t = (case timer_length t of Inr d \<Rightarrow> d | Inl e \<Rightarrow> - 1)"

text \<open>The calls into the state machine among the effects, in order.\<close>

fun is_transition_attempt :: "event \<Rightarrow> bool" where
  "is_transition_attempt (Triggered trig) = True"
| "is_transition_attempt (MovedTo s) = True"
| "is_transition_attempt (Published msg) = False"
| "is_transition_attempt ThreadStarted = False"

definition transition_attempts :: "event list \<Rightarrow> event list" where
  "transition_attempts es = filter is_transition_attempt es"

text \<open>The remaining seconds reported by the messages among the effects, in order.\<close>

fun remaining_values :: "event list \<Rightarrow> int list" where
  "remaining_values [] = []"
| "remaining_values (Published msg # es) =
     time_remaining_until_next_task msg # remaining_values es"
| "remaining_values (e # es) = remaining_values es"

text \<open>What an operation added to the effects of the node.\<close>

definition new_effects :: "TaskMonitor \<Rightarrow> TaskMonitor \<Rightarrow> event list" where
  "new_effects m m' = drop (length (effects m)) (effects m')"

text \<open>The messages the loop of the timer thread publishes, started in \<open>m\<close>.\<close>

definition tick_snapshots :: "TaskMonitor \<Rightarrow> event list" where
  "tick_snapshots m =
     (case timer_length (task m) of
        Inr loops \<Rightarrow> new_effects m (final (timer_loop (nat loops) m))
      | Inl e \<Rightarrow> [])"

text \<open>
  The messages of \<open>n\<close> passes of that loop, started in \<open>m\<close> with \<open>d\<close> seconds on the
  timer: the monitor as the first pass finds it, with one second less from pass to pass.
\<close>

definition tick_messages :: "nat \<Rightarrow> int \<Rightarrow> TaskMonitor \<Rightarrow> event list" where
  "tick_messages n d m =
     map (\<lambda>k. Published (message (m\<lparr>next_activity := peek_next_activity m\<rparr>) (d - int k)))
       [0..<n]"

text \<open>The second task is the first one, but for the current state.\<close>

definition only_state_moved :: "Task \<Rightarrow> Task \<Rightarrow> bool" where
  "only_state_moved t t' = (t' = t\<lparr>state := state t'\<rparr>)"

text \<open>
  The fields that define the task: everything of \<^verbatim>\<open>Task\<close> but the current state and
  the timers of the states, and the activities of the monitor.
\<close>

definition same_definition :: "TaskMonitor \<Rightarrow> TaskMonitor \<Rightarrow> bool" where
  "same_definition m m' =
     (name (task m') = name (task m) \<and>
      description (task m') = description (task m) \<and>
      items (task m') = items (task m) \<and>
      steps (task m') = steps (task m) \<and>
      transitions (task m') = transitions (task m) \<and>
      to_state_dict (task m') = to_state_dict (task m) \<and>
      map fst (machine_states (task m')) = map fst (machine_states (task m)) \<and>
      activity_action_dict m' = activity_action_dict m)"

subsection \<open>The tea session\<close>

text \<open>
  The node after its construction, after the observation of \<^verbatim>\<open>opening bottle\<close>, and
  after the observation of \<^verbatim>\<open>making tea\<close>, when the timer of the third step runs.
\<close>

definition tea_pouring :: TaskMonitor where
  "tea_pouring = final TaskMonitor_init"

definition tea_placing :: TaskMonitor where
  "tea_placing = final (listener_callback [''opening bottle''] tea_pouring)"

definition tea_steeping :: TaskMonitor where
  "tea_steeping = final (listener_callback [''making tea''] tea_placing)"

subsection \<open>A session that comes back to its timed step\<close>

text \<open>
  No transition of the tea task leads back into the steeping. To look at a timed step
  that is entered a second time, the same monitor is run on a task of three steps whose
  second step has a timer of two seconds and is entered from the first step and,
  again, from the third.
\<close>

definition rinse_task :: Task where
  "rinse_task =
     \<lparr>name = ''Rinsing'',
      items = [(''bowl'', 1)],
      description = ''Fill the bowl, let it soak, drain it.'',
      steps = [''fill'', ''soak'', ''drain''],
      transitions =
        [\<lparr>trigger = ''filled'', source = ''fill'', dest = ''soak''\<rparr>,
         \<lparr>trigger = ''refilled'', source = ''drain'', dest = ''soak''\<rparr>],
      machine_states = [(''fill'', None), (''soak'', Some 2), (''drain'', None)],
      state = ''fill'',
      to_state_dict = [(''fill'', ''fill''), (''soak'', ''soak''), (''drain'', ''drain'')]\<rparr>"

definition rinse_filling :: TaskMonitor where
  "rinse_filling =
     final (publish_task_state_message
       \<lparr>task = rinse_task,
        current_step = state rinse_task,
        previous_step = None,
        current_activity = None,
        next_activity = None,
        timer_active = False,
        activity_action_dict = [(''filling'', ''filled''), (''refilling'', ''refilled'')],
        effects = []\<rparr>)"

definition rinse_soaking :: TaskMonitor where
  "rinse_soaking = final (listener_callback [''filling''] rinse_filling)"

definition rinse_draining :: TaskMonitor where
  "rinse_draining = final (task_timer_thread rinse_soaking)"

section \<open>Properties\<close>

subsection \<open>Reading the timer and publishing\<close>

lemma timer_length_cases:
  "timer_length t = Inl KeyError \<or> timer_length t = Inl AttributeError \<or>
   (\<exists>d. timer_length t = Inr d)"
  by (simp add: timer_length_def split: option.splits)

lemma timer_length_KeyError_iff:
  "timer_length t = Inl KeyError \<longleftrightarrow> \<not> state_known t"
proof -
  have "state_known t \<longleftrightarrow> map_of (machine_states t) (state t) \<noteq> None"
    by (simp add: state_known_def map_of_eq_None_iff)
  then show ?thesis
    by (simp add: timer_length_def split: option.splits)
qed

lemma timer_length_Inr_known: "timer_length t = Inr d \<Longrightarrow> state_known t"
  using timer_length_KeyError_iff [of t] by auto

lemma publish_task_state_message_known:
  assumes "state_known (task m)"
  shows "publish_task_state_message m =
           Returned (publish (message (m\<lparr>next_activity := peek_next_activity m\<rparr>)
                                (remaining_of (task m)))
                       (m\<lparr>next_activity := peek_next_activity m\<rparr>))"
  using assms timer_length_cases [of "task m"] timer_length_KeyError_iff [of "task m"]
  by (auto simp add: publish_task_state_message_def remaining_of_def Let_def)

lemma publish_task_state_message_unknown:
  assumes "\<not> state_known (task m)"
  shows "publish_task_state_message m =
           Raised KeyError (m\<lparr>next_activity := peek_next_activity m\<rparr>)"
  using assms timer_length_KeyError_iff [of "task m"]
  by (auto simp add: publish_task_state_message_def Let_def)

lemma final_publish_task_state_message:
  "final (publish_task_state_message m) =
     (if state_known (task m)
      then publish (message (m\<lparr>next_activity := peek_next_activity m\<rparr>)
                      (remaining_of (task m)))
             (m\<lparr>next_activity := peek_next_activity m\<rparr>)
      else m\<lparr>next_activity := peek_next_activity m\<rparr>)"
  by (simp add: publish_task_state_message_known publish_task_state_message_unknown)

subsection \<open>Observations while the timer runs\<close>

text \<open>
  Claim C1. While \<open>timer_active\<close> holds, \<open>listener_callback\<close> changes neither
  \<open>current_step\<close> nor the task (so not the state of its machine) nor \<open>previous_step\<close>,
  leaves the timer active and calls no trigger and no \<open>to_<state>\<close> method, whatever the
  labels of the observation are and whether or not one of them is a known activity; this
  holds for the object the call leaves behind also when the call raises. The witness is
  the tea session during the steeping, where the observation of \<open>opening bottle\<close> keeps
  the step and does change \<open>current_activity\<close>.
\<close>

theorem timer_active_blocks_transition:
  assumes "timer_active m"
  shows "current_step (final (listener_callback label_vec m)) = current_step m \<and>
         task (final (listener_callback label_vec m)) = task m \<and>
         previous_step (final (listener_callback label_vec m)) = previous_step m \<and>
         timer_active (final (listener_callback label_vec m)) \<and>
         transition_attempts (effects (final (listener_callback label_vec m))) =
           transition_attempts (effects m)"
  using assms
  by (auto simp add: listener_callback_def final_publish_task_state_message publish_def
        transition_attempts_def split: option.splits list.splits)

theorem timer_active_blocks_transition_witness:
  "timer_active tea_steeping \<and>
   current_step (final (listener_callback [''opening bottle''] tea_steeping)) =
     current_step tea_steeping \<and>
   current_step tea_steeping = ''steep_for_20_seconds'' \<and>
   current_activity (final (listener_callback [''opening bottle''] tea_steeping)) \<noteq>
     current_activity tea_steeping"
proof -
  have active: "timer_active tea_steeping"
    by code_simp
  have step: "current_step tea_steeping = ''steep_for_20_seconds''"
    by code_simp
  have activity:
    "current_activity (final (listener_callback [''opening bottle''] tea_steeping)) \<noteq>
       current_activity tea_steeping"
    by code_simp
  from timer_active_blocks_transition [OF active, of "[''opening bottle'']"]
    active step activity
  show ?thesis by simp
qed

text \<open>
  Claim C10. When the observation has a label that is a known activity and the timer is
  active, \<open>listener_callback\<close> returns the monitor with \<open>current_activity\<close> set to the
  first such label and nothing else changed: in particular the effects are the same, so
  no message was published.
\<close>

theorem matched_while_timer_active_only_records_activity:
  assumes "matched_activity m label_vec = Some a"
      and "timer_active m"
  shows "listener_callback label_vec m = Returned (m\<lparr>current_activity := Some a\<rparr>) \<and>
         effects (final (listener_callback label_vec m)) = effects m"
  using assms by (simp add: listener_callback_def)

theorem matched_while_timer_active_only_records_activity_witness:
  "matched_activity tea_steeping [''unknown'', ''opening bottle''] = Some ''opening bottle'' \<and>
   timer_active tea_steeping \<and>
   listener_callback [''unknown'', ''opening bottle''] tea_steeping =
     Returned (tea_steeping\<lparr>current_activity := Some ''opening bottle''\<rparr>) \<and>
   effects (final (listener_callback [''unknown'', ''opening bottle''] tea_steeping)) =
     effects tea_steeping"
proof -
  have matched:
    "matched_activity tea_steeping [''unknown'', ''opening bottle''] = Some ''opening bottle''"
    by code_simp
  have active: "timer_active tea_steeping"
    by code_simp
  from matched_while_timer_active_only_records_activity [OF matched active] matched active
  show ?thesis by simp
qed

subsection \<open>Observations without labels\<close>

text \<open>
  Claim C8 says that an observation with an empty \<open>label_vec\<close> is handled without a
  crash. In the source the search for a known activity finds none in the empty list,
  and the branch for that case reads \<^verbatim>\<open>activity_msg.label_vec[0]\<close>: the call raises
  \<open>IndexError\<close> before anything is assigned or published, in every state of the monitor.
\<close>

theorem empty_label_vec_raises: "listener_callback [] m = Raised IndexError m"
  by (simp add: listener_callback_def matched_activity_def)

subsection \<open>Observations without a known activity\<close>

lemma matched_activity_None:
  "matched_activity m label_vec = None \<longleftrightarrow>
     (\<forall>a \<in> set label_vec. a \<notin> set (map fst (activity_action_dict m)))"
  by (auto simp add: matched_activity_def find_None_iff)

text \<open>
  Claim C7. For a non-empty observation none of whose labels is a key of
  \<open>activity_action_dict\<close>, in a monitor whose task is in a state of its machine,
  \<open>listener_callback\<close> returns, \<open>current_step\<close>, \<open>previous_step\<close>, the task and the
  timer flag are unchanged, \<open>current_activity\<close> is the first label, and the only effect
  is one published message, which carries that label and the unchanged step: no trigger
  is called.
\<close>

theorem unmatched_observation_recorded:
  assumes "label_vec \<noteq> []"
      and "\<forall>a \<in> set label_vec. a \<notin> set (map fst (activity_action_dict m))"
      and "state_known (task m)"
  shows "let m' = final (listener_callback label_vec m) in
           listener_callback label_vec m = Returned m' \<and>
           current_step m' = current_step m \<and>
           previous_step m' = previous_step m \<and>
           task m' = task m \<and>
           timer_active m' = timer_active m \<and>
           current_activity m' = Some (hd label_vec) \<and>
           (\<exists>msg. effects m' = effects m @ [Published msg] \<and>
                  msg_current_activity msg = hd label_vec \<and>
                  msg_current_step msg = replace_underscores (current_step m))"
proof -
  from assms(2) have none: "matched_activity m label_vec = None"
    by (simp add: matched_activity_None)
  from assms(1) obtain a rest where lv: "label_vec = a # rest"
    by (cases label_vec) auto
  from assms(3) have known: "state_known (task (m\<lparr>current_activity := Some a\<rparr>))"
    by simp
  show ?thesis
    using none lv publish_task_state_message_known [OF known]
    by (simp add: listener_callback_def publish_def message_def Let_def)
qed

theorem unmatched_observation_recorded_witness:
  "current_step (final (listener_callback [''unknown_label''] tea_pouring)) =
     ''open_bottle_and_pour_water_into_cup'' \<and>
   current_step tea_pouring = ''open_bottle_and_pour_water_into_cup'' \<and>
   current_activity (final (listener_callback [''unknown_label''] tea_pouring)) =
     Some ''unknown_label'' \<and>
   length (effects (final (listener_callback [''unknown_label''] tea_pouring))) =
     Suc (length (effects tea_pouring))"
proof -
  have nonempty: "[''unknown_label''] \<noteq> []"
    by simp
  have unmatched:
    "\<forall>a \<in> set [''unknown_label'']. a \<notin> set (map fst (activity_action_dict tea_pouring))"
    by code_simp
  have known: "state_known (task tea_pouring)"
    by code_simp
  have step: "current_step tea_pouring = ''open_bottle_and_pour_water_into_cup''"
    by code_simp
  from unmatched_observation_recorded [OF nonempty unmatched known] step
  show ?thesis by (auto simp add: Let_def)
qed

subsection \<open>A trigger without a transition from the current step\<close>

lemma fire_MachineError_iff:
  "fire trig t = Inl MachineError \<longleftrightarrow>
     (\<forall>tr \<in> set (transitions t). \<not> (trigger tr = trig \<and> source tr = state t))"
proof -
  have "fire trig t = Inl MachineError \<longleftrightarrow>
          find (\<lambda>tr. trigger tr = trig \<and> source tr = state t) (transitions t) = None"
    by (simp add: fire_def split: option.splits)
  then show ?thesis
    by (auto simp add: find_None_iff)
qed

lemma start_timer_cases:
  assumes "state_known (task m)"
  shows "start_timer m = Returned m \<or>
         start_timer m =
           Returned (m\<lparr>timer_active := True, effects := effects m @ [ThreadStarted]\<rparr>)"
  using assms timer_length_cases [of "task m"] timer_length_KeyError_iff [of "task m"]
  by (auto simp add: start_timer_def)

text \<open>
  Claim C4. The trigger of the matched activity is called when the timer is not active.
  If the task has no transition of that trigger from its current state, the library
  raises \<open>MachineError\<close>, which \<open>listener_callback\<close> catches: the call returns,
  \<open>current_step\<close>, \<open>previous_step\<close> and the task are unchanged, and after the call of
  the trigger a message is published that carries the unchanged step and previous step.
  The only effect that may follow is the start of a timer thread.
\<close>

theorem missing_transition_swallowed:
  assumes "matched_activity m label_vec = Some a"
      and "\<not> timer_active m"
      and "map_of (activity_action_dict m) a = Some trig"
      and "\<forall>tr \<in> set (transitions (task m)).
             \<not> (trigger tr = trig \<and> source tr = state (task m))"
      and "state_known (task m)"
  shows "let m' = final (listener_callback label_vec m) in
           listener_callback label_vec m = Returned m' \<and>
           current_step m' = current_step m \<and>
           previous_step m' = previous_step m \<and>
           task m' = task m \<and>
           (\<exists>msg rest. effects m' = effects m @ Triggered trig # Published msg # rest \<and>
              set rest \<subseteq> {ThreadStarted} \<and>
              msg_current_step msg = replace_underscores (current_step m) \<and>
              msg_previous_step msg =
                (case previous_step m of None \<Rightarrow> ''N/A'' | Some p \<Rightarrow> p))"
proof -
  let ?m1 = "m\<lparr>current_activity := Some a\<rparr>"
  let ?m2 = "?m1\<lparr>effects := effects m @ [Triggered trig]\<rparr>"
  let ?m3 = "publish (message (?m2\<lparr>next_activity := peek_next_activity ?m2\<rparr>)
                                (remaining_of (task ?m2)))
                       (?m2\<lparr>next_activity := peek_next_activity ?m2\<rparr>)"
  from assms(4) have err: "fire trig (task m) = Inl MachineError"
    by (simp add: fire_MachineError_iff)
  with assms(3) have adv: "attempt_advance a ?m1 = Returned ?m2"
    by (simp add: attempt_advance_def Let_def)
  from assms(5) have "state_known (task ?m2)"
    by simp
  then have pub: "publish_task_state_message ?m2 = Returned ?m3"
    by (rule publish_task_state_message_known)
  from assms(5) have "state_known (task ?m3)"
    by (simp add: publish_def)
  then have timer:
    "start_timer ?m3 = Returned ?m3 \<or>
     start_timer ?m3 =
       Returned (?m3\<lparr>timer_active := True, effects := effects ?m3 @ [ThreadStarted]\<rparr>)"
    by (rule start_timer_cases)
  have call: "listener_callback label_vec m = start_timer ?m3"
    using assms(1,2) adv pub by (simp add: listener_callback_def Let_def)
  from timer show ?thesis
  proof
    assume "start_timer ?m3 = Returned ?m3"
    with call show ?thesis
      by (simp add: Let_def publish_def message_def)
  next
    assume "start_timer ?m3 =
              Returned (?m3\<lparr>timer_active := True, effects := effects ?m3 @ [ThreadStarted]\<rparr>)"
    with call show ?thesis
      by (simp add: Let_def publish_def message_def)
  qed
qed

theorem missing_transition_swallowed_witness:
  "matched_activity tea_pouring [''making tea''] = Some ''making tea'' \<and>
   \<not> timer_active tea_pouring \<and>
   listener_callback [''making tea''] tea_pouring =
     Returned (final (listener_callback [''making tea''] tea_pouring)) \<and>
   current_step (final (listener_callback [''making tea''] tea_pouring)) =
     current_step tea_pouring \<and>
   previous_step (final (listener_callback [''making tea''] tea_pouring)) = None"
proof -
  have matched: "matched_activity tea_pouring [''making tea''] = Some ''making tea''"
    by code_simp
  have idle: "\<not> timer_active tea_pouring"
    by code_simp
  have trig: "map_of (activity_action_dict tea_pouring) ''making tea'' = Some ''make_tea''"
    by code_simp
  have none: "\<forall>tr \<in> set (transitions (task tea_pouring)).
                \<not> (trigger tr = ''make_tea'' \<and> source tr = state (task tea_pouring))"
    by code_simp
  have known: "state_known (task tea_pouring)"
    by code_simp
  have prev: "previous_step tea_pouring = None"
    by code_simp
  from missing_transition_swallowed [OF matched idle trig none known] matched idle prev
  show ?thesis by (simp add: Let_def)
qed

subsection \<open>The next activity\<close>

lemma peek_next_activity_None:
  "\<forall>tr \<in> set (transitions (task m)). source tr \<noteq> state (task m) \<Longrightarrow>
   peek_next_activity m = next_activity m"
  by (simp add: peek_next_activity_def find_None_iff [THEN iffD2] split: option.splits)

text \<open>
  Only the loop of \<open>publish_task_state_message\<close> assigns \<open>next_activity\<close>: the other
  parts of the callback and of the timer thread leave it as it is.
\<close>

lemma next_activity_attempt_advance:
  "next_activity (final (attempt_advance a m)) = next_activity m"
  by (simp add: attempt_advance_def Let_def split: option.splits sum.splits)

lemma next_activity_start_timer:
  "next_activity (final (start_timer m)) = next_activity m"
  by (simp add: start_timer_def split: sum.splits)

lemma next_activity_decrement_timer:
  "next_activity (final (decrement_timer m)) = next_activity m"
  by (simp add: decrement_timer_def split: sum.splits)

text \<open>
  Claim C6. Let \<open>tr\<close> be the first transition, in the order of declaration, out of the
  state of the task in \<open>m\<close>, so that publishing in \<open>m\<close> computes its trigger, and let
  \<open>m2\<close> be a monitor that still stores that value, whose task is in a state without a
  transition out of it. Then publishing in \<open>m2\<close> returns, the published message has the
  trigger of \<open>tr\<close> as its next activity, not \<open>None\<close>, and the stored value stays.
\<close>

theorem next_activity_sticky:
  assumes "find (\<lambda>tr. source tr = state (task m)) (transitions (task m)) = Some tr"
      and "next_activity m2 = next_activity (final (publish_task_state_message m))"
      and "\<forall>tr \<in> set (transitions (task m2)). source tr \<noteq> state (task m2)"
      and "state_known (task m2)"
  shows "let m' = final (publish_task_state_message m2) in
           \<exists>msg. publish_task_state_message m2 = Returned m' \<and>
             effects m' = effects m2 @ [Published msg] \<and>
             msg_next_activity msg = Some (trigger tr) \<and>
             next_activity m' = Some (trigger tr) \<and>
             next_activity m' = next_activity m2"
proof -
  from assms(1) have "peek_next_activity m = Some (trigger tr)"
    by (simp add: peek_next_activity_def)
  then have "next_activity (final (publish_task_state_message m)) = Some (trigger tr)"
    by (simp add: final_publish_task_state_message publish_def)
  with assms(2) have stored: "next_activity m2 = Some (trigger tr)"
    by simp
  from assms(3) have "peek_next_activity m2 = next_activity m2"
    by (rule peek_next_activity_None)
  with stored show ?thesis
    using publish_task_state_message_known [OF assms(4)]
    by (simp add: Let_def publish_def message_def)
qed

theorem next_activity_sticky_witness:
  "next_activity tea_placing = Some ''make_tea'' \<and>
   (\<exists>msg. effects (final (publish_task_state_message tea_steeping)) =
            effects tea_steeping @ [Published msg] \<and>
          msg_next_activity msg = Some ''make_tea'')"
proof -
  let ?tr = "\<lparr>trigger = ''make_tea'', source = ''place_tea_bag_into_cup'',
              dest = ''steep_for_20_seconds''\<rparr>"
  have first: "find (\<lambda>tr. source tr = state (task tea_placing))
                 (transitions (task tea_placing)) = Some ?tr"
    by code_simp
  have kept: "next_activity tea_steeping =
                next_activity (final (publish_task_state_message tea_placing))"
    by code_simp
  have none: "\<forall>tr \<in> set (transitions (task tea_steeping)).
                source tr \<noteq> state (task tea_steeping)"
    by code_simp
  have known: "state_known (task tea_steeping)"
    by code_simp
  have placing: "next_activity tea_placing = Some ''make_tea''"
    by code_simp
  from next_activity_sticky [OF first kept none known] placing
  show ?thesis by (auto simp add: Let_def)
qed

subsection \<open>The timer thread\<close>

lemma map_of_set_timer:
  "map_of (map (\<lambda>(k, v). if k = s then (k, Some d) else (k, v)) xs) k' =
     (if k' = s then (case map_of xs s of None \<Rightarrow> None | Some v \<Rightarrow> Some (Some d))
      else map_of xs k')"
  by (induction xs) auto

lemma map_fst_set_timer:
  "map fst (map (\<lambda>(k, v). if k = s then (k, Some d) else (k, v)) xs) = map fst xs"
  by (induction xs) auto

lemma set_timer_length_fields [simp]:
  "state (set_timer_length d t) = state t"
  "name (set_timer_length d t) = name t"
  "items (set_timer_length d t) = items t"
  "description (set_timer_length d t) = description t"
  "steps (set_timer_length d t) = steps t"
  "transitions (set_timer_length d t) = transitions t"
  "to_state_dict (set_timer_length d t) = to_state_dict t"
  "map fst (machine_states (set_timer_length d t)) = map fst (machine_states t)"
  by (simp_all add: set_timer_length_def split_def)

lemma state_known_set_timer_length [simp]:
  "state_known (set_timer_length d t) = state_known t"
  by (simp add: state_known_def)

lemma timer_length_set_timer_length:
  "state_known t \<Longrightarrow> timer_length (set_timer_length d t) = Inr d"
proof -
  assume "state_known t"
  then have "map_of (machine_states t) (state t) \<noteq> None"
    by (simp add: state_known_def map_of_eq_None_iff)
  then show ?thesis
    by (auto simp add: timer_length_def set_timer_length_def map_of_set_timer)
qed

lemma map_of_set_timer_length_other:
  "k \<noteq> state t \<Longrightarrow>
   map_of (machine_states (set_timer_length d t)) k = map_of (machine_states t) k"
  by (simp add: set_timer_length_def map_of_set_timer)

lemma set_timer_length_twice [simp]:
  "set_timer_length d2 (set_timer_length d1 t) = set_timer_length d2 t"
  by (simp add: set_timer_length_def comp_def split_def)

lemma peek_next_activity_idem:
  "state (task m') = state (task m) \<Longrightarrow> transitions (task m') = transitions (task m) \<Longrightarrow>
   next_activity m' = peek_next_activity m \<Longrightarrow> peek_next_activity m' = peek_next_activity m"
  by (simp add: peek_next_activity_def split: option.splits)

lemma timer_tick_eq:
  assumes "timer_length (task m) = Inr d"
  shows "timer_tick m =
           Returned (m\<lparr>next_activity := peek_next_activity m,
                        effects := effects m @ tick_messages 1 d m,
                        task := set_timer_length (d - 1) (task m)\<rparr>)"
proof -
  from assms have known: "state_known (task m)"
    by (rule timer_length_Inr_known)
  from assms have rem: "remaining_of (task m) = d"
    by (simp add: remaining_of_def)
  show ?thesis
    using assms
    by (simp add: timer_tick_def publish_task_state_message_known [OF known] rem
          decrement_timer_def publish_def tick_messages_def)
qed

lemma tick_messages_Suc:
  "tick_messages (Suc n) d m =
     Published (message (m\<lparr>next_activity := peek_next_activity m\<rparr>) d) #
       tick_messages n (d - 1) m"
  by (simp add: tick_messages_def map_upt_Suc diff_diff_eq del: upt_Suc)

lemma tick_messages_0: "tick_messages 0 d m = []"
  by (simp add: tick_messages_def)

lemma tick_messages_cong:
  assumes "message (m'\<lparr>next_activity := peek_next_activity m'\<rparr>) =
             message (m\<lparr>next_activity := peek_next_activity m\<rparr>)"
  shows "tick_messages n d m' = tick_messages n d m"
  using assms by (simp add: tick_messages_def)

lemma timer_loop_Suc_eq:
  "timer_length (task m) = Inr d \<Longrightarrow>
   timer_loop (Suc n) m =
     Returned (m\<lparr>next_activity := peek_next_activity m,
                  effects := effects m @ tick_messages (Suc n) d m,
                  task := set_timer_length (d - 1 - int n) (task m)\<rparr>)"
proof (induction n arbitrary: m d)
  case 0
  then show ?case by (simp add: timer_tick_eq)
next
  case (Suc n)
  let ?mt = "m\<lparr>next_activity := peek_next_activity m,
                effects := effects m @ tick_messages 1 d m,
                task := set_timer_length (d - 1) (task m)\<rparr>"
  from Suc.prems have known: "state_known (task m)"
    by (rule timer_length_Inr_known)
  then have tl: "timer_length (task ?mt) = Inr (d - 1)"
    by (simp add: timer_length_set_timer_length)
  have peek: "peek_next_activity ?mt = peek_next_activity m"
    by (rule peek_next_activity_idem) simp_all
  have "message (?mt\<lparr>next_activity := peek_next_activity ?mt\<rparr>) =
          message (m\<lparr>next_activity := peek_next_activity m\<rparr>)"
    unfolding peek by (simp add: message_def fun_eq_iff)
  then have msgs: "tick_messages (Suc n) (d - 1) ?mt = tick_messages (Suc n) (d - 1) m"
    by (rule tick_messages_cong)
  have one: "tick_messages (Suc 0) d m @ tick_messages (Suc n) (d - 1) m =
               tick_messages (Suc (Suc n)) d m"
    using tick_messages_Suc [of 0 d m] tick_messages_Suc [of "Suc n" d m]
    by (simp add: tick_messages_0)
  have "timer_loop (Suc (Suc n)) m = timer_loop (Suc n) ?mt"
    using timer_tick_eq [OF Suc.prems] by simp
  also have "\<dots> = Returned (?mt\<lparr>next_activity := peek_next_activity ?mt,
                  effects := effects ?mt @ tick_messages (Suc n) (d - 1) ?mt,
                  task := set_timer_length (d - 1 - 1 - int n) (task ?mt)\<rparr>)"
    by (rule Suc.IH [OF tl])
  also have "\<dots> = Returned (m\<lparr>next_activity := peek_next_activity m,
                  effects := effects m @ tick_messages (Suc (Suc n)) d m,
                  task := set_timer_length (d - 1 - int (Suc n)) (task m)\<rparr>)"
    unfolding peek msgs by (simp add: one diff_diff_eq add.commute)
  finally show ?case .
qed

lemma remaining_values_tick_messages:
  "remaining_values (tick_messages n d m) = map (\<lambda>k. d - int k) [0..<n]"
proof -
  have "remaining_values (map (\<lambda>k. Published (f k)) ks) = map (\<lambda>k. time_remaining_until_next_task (f k)) ks" for f :: "nat \<Rightarrow> TaskUpdate" and ks
    by (induction ks) simp_all
  then show ?thesis
    by (simp add: tick_messages_def message_def)
qed

lemma countdown_upto: "map (\<lambda>k. int n - int k) [0..<n] = rev [1..int n]"
proof (induction n)
  case 0
  then show ?case by simp
next
  case (Suc n)
  have "map (\<lambda>k. int (Suc n) - int k) [0..<Suc n] =
          (int (Suc n) - int 0) # map (\<lambda>k. int (Suc n) - int (Suc k)) [0..<n]"
    by (rule map_upt_Suc)
  also have "\<dots> = int (Suc n) # map (\<lambda>k. int n - int k) [0..<n]"
    by simp
  also have "\<dots> = int (Suc n) # rev [1..int n]"
    by (simp only: Suc.IH)
  also have "\<dots> = rev [1..int (Suc n)]"
    by (simp add: upto_rec2)
  finally show ?case .
qed

lemma countdown_values: "map (\<lambda>k. d - int k) [0..<nat d] = rev [1..d]"
proof (cases "0 \<le> d")
  case True
  then show ?thesis using countdown_upto [of "nat d"] by simp
next
  case False
  then show ?thesis by simp
qed


lemma timer_loop_eq:
  assumes "timer_length (task m) = Inr d"
  shows "timer_loop n m =
           (if n = 0 then Returned m
            else Returned (m\<lparr>next_activity := peek_next_activity m,
                               effects := effects m @ tick_messages n d m,
                               task := set_timer_length (d - int n) (task m)\<rparr>))"
proof (cases n)
  case 0
  then show ?thesis by simp
next
  case (Suc k)
  have "d - 1 - int k = d - int (Suc k)" by simp
  with timer_loop_Suc_eq [OF assms, of k] Suc show ?thesis
    by simp
qed

lemma tick_snapshots_eq:
  assumes "timer_length (task m) = Inr d"
  shows "tick_snapshots m = tick_messages (nat d) d m"
  using assms
  by (simp add: tick_snapshots_def timer_loop_eq [OF assms] new_effects_def tick_messages_0)

lemma index_of_Some:
  "index_of xs x = Some i \<Longrightarrow> i < length xs \<and> xs ! i = x"
  by (induction xs arbitrary: i) (auto split: if_splits)

lemma nth_known:
  assumes "i < length (machine_states t)"
  shows "state_known (t\<lparr>state := map fst (machine_states t) ! i\<rparr>)"
  using assms by (simp add: state_known_def)

lemma timer_expire_advances:
  assumes "index_of (map fst (machine_states (task m))) (state (task m)) = Some i"
      and "Suc i < length (machine_states (task m))"
      and "map_of (to_state_dict (task m)) (map fst (machine_states (task m)) ! Suc i) =
             Some (map fst (machine_states (task m)) ! Suc i)"
  shows "timer_expire m =
           (let nxt = map fst (machine_states (task m)) ! Suc i;
                m3 = m\<lparr>timer_active := False,
                       task := (task m)\<lparr>state := nxt\<rparr>,
                       effects := effects m @ [MovedTo nxt],
                       previous_step := Some (current_step m),
                       current_step := nxt\<rparr>
            in Returned (publish (message (m3\<lparr>next_activity := peek_next_activity m3\<rparr>)
                                    (remaining_of (task m3)))
                           (m3\<lparr>next_activity := peek_next_activity m3\<rparr>)))"
proof -
  let ?nxt = "map fst (machine_states (task m)) ! Suc i"
  let ?m3 = "m\<lparr>timer_active := False,
                       task := (task m)\<lparr>state := ?nxt\<rparr>,
                       effects := effects m @ [MovedTo ?nxt],
                       previous_step := Some (current_step m),
                       current_step := ?nxt\<rparr>"
  from assms(2) have "state_known ((task m)\<lparr>state := ?nxt\<rparr>)"
    by (rule nth_known)
  then have "state_known (task ?m3)" by simp
  then have pub: "publish_task_state_message ?m3 =
     Returned (publish (message (?m3\<lparr>next_activity := peek_next_activity ?m3\<rparr>)
                                    (remaining_of (task ?m3)))
                           (?m3\<lparr>next_activity := peek_next_activity ?m3\<rparr>))"
    by (rule publish_task_state_message_known)
  have "timer_expire m = publish_task_state_message ?m3"
    using assms by (simp add: timer_expire_def Let_def)
  with pub show ?thesis by (simp add: Let_def)
qed

text \<open>
  Claim C2. The timer thread runs in a monitor whose task is in a state with a timer;
  that state is at position \<open>i\<close> of the steps and is not the last one, the states of
  the machine are the steps in their order, \<open>to_state_dict\<close> has the \<open>to_<state>\<close>
  method of the next step under its name, and \<open>current_step\<close> follows the state of the
  task. Then the thread returns; \<open>current_step\<close> and the state of the task are the step
  at position \<open>i + 1\<close>, \<open>previous_step\<close> is the step whose timer ran, the timer is no
  longer active, and after the messages of the countdown the thread calls the
  \<open>to_<state>\<close> method of the next step and publishes one more message, which carries
  the new step. Nothing is assumed about the transitions of the task.
\<close>

theorem timer_expiry_advances_to_next_step:
  assumes "timer_length (task m) = Inr d"
      and "index_of (steps (task m)) (state (task m)) = Some i"
      and "Suc i < length (steps (task m))"
      and "map fst (machine_states (task m)) = steps (task m)"
      and "map_of (to_state_dict (task m)) (steps (task m) ! Suc i) = Some (steps (task m) ! Suc i)"
      and "current_step m = state (task m)"
  shows "let m' = final (task_timer_thread m) in
           task_timer_thread m = Returned m' \<and>
           current_step m' = steps (task m) ! Suc i \<and>
           state (task m') = steps (task m) ! Suc i \<and>
           previous_step m' = Some (steps (task m) ! i) \<and>
           \<not> timer_active m' \<and>
           (\<exists>msg. effects m' =
                    effects m @ tick_snapshots m @ [MovedTo (steps (task m) ! Suc i), Published msg] \<and>
                  msg_current_step msg = replace_underscores (steps (task m) ! Suc i) \<and>
                  msg_previous_step msg = steps (task m) ! i)"
proof -
  let ?n = "nat d"
  let ?ml = "final (timer_loop ?n m)"
  have loop: "timer_loop ?n m = Returned ?ml"
    by (simp add: timer_loop_eq [OF assms(1)])
  have keys: "map fst (machine_states (task ?ml)) = steps (task m)"
    using assms(4) by (simp add: timer_loop_eq [OF assms(1)])
  have len: "length (machine_states (task ?ml)) = length (steps (task m))"
    using keys by (metis length_map)
  have st: "state (task ?ml) = state (task m)"
    by (simp add: timer_loop_eq [OF assms(1)])
  have tsd: "to_state_dict (task ?ml) = to_state_dict (task m)"
    by (simp add: timer_loop_eq [OF assms(1)])
  have stp: "steps (task ?ml) = steps (task m)"
    by (simp add: timer_loop_eq [OF assms(1)])
  have cur: "current_step ?ml = state (task m)"
    using assms(6) by (simp add: timer_loop_eq [OF assms(1)])
  have eff: "effects ?ml = effects m @ tick_snapshots m"
    by (simp add: timer_loop_eq [OF assms(1)] tick_snapshots_eq [OF assms(1)] tick_messages_0)
  from assms(2) have at: "steps (task m) ! i = state (task m)"
    by (simp add: index_of_Some)
  have e1: "index_of (map fst (machine_states (task ?ml))) (state (task ?ml)) = Some i"
    using assms(2) keys st by simp
  have e2: "Suc i < length (machine_states (task ?ml))"
    using assms(3) len by simp
  have e3: "map_of (to_state_dict (task ?ml)) (map fst (machine_states (task ?ml)) ! Suc i) =
             Some (map fst (machine_states (task ?ml)) ! Suc i)"
    using assms(5) keys tsd by simp
  have "and_then (timer_loop ?n m) timer_expire = timer_expire ?ml"
    by (metis loop and_then.simps(1))
  with assms(1) have thread: "task_timer_thread m = timer_expire ?ml"
    by (simp add: task_timer_thread_def)
  show ?thesis
    unfolding thread timer_expire_advances [OF e1 e2 e3] keys
    by (simp add: Let_def publish_def message_def cur eff at)
qed


theorem timer_expiry_advances_to_next_step_witness:
  "timer_length (task tea_steeping) = Inr 20 \<and>
   index_of (steps (task tea_steeping)) (state (task tea_steeping)) = Some 2 \<and>
   current_step tea_steeping = ''steep_for_20_seconds'' \<and>
   current_step (final (task_timer_thread tea_steeping)) = ''enjoy'' \<and>
   previous_step (final (task_timer_thread tea_steeping)) = Some ''steep_for_20_seconds'' \<and>
   \<not> timer_active (final (task_timer_thread tea_steeping))"
proof -
  have stps: "steps (task tea_steeping) =
      [''open_bottle_and_pour_water_into_cup'', ''place_tea_bag_into_cup'',
       ''steep_for_20_seconds'', ''enjoy'']"
    by code_simp
  have timer: "timer_length (task tea_steeping) = Inr 20"
    by code_simp
  have idx: "index_of (steps (task tea_steeping)) (state (task tea_steeping)) = Some 2"
    by code_simp
  have not_last: "Suc 2 < length (steps (task tea_steeping))"
    by code_simp
  have keys: "map fst (machine_states (task tea_steeping)) = steps (task tea_steeping)"
    by code_simp
  have to_next: "map_of (to_state_dict (task tea_steeping)) (steps (task tea_steeping) ! Suc 2) =
                   Some (steps (task tea_steeping) ! Suc 2)"
    by code_simp
  have cur: "current_step tea_steeping = state (task tea_steeping)"
    by code_simp
  have step: "current_step tea_steeping = ''steep_for_20_seconds''"
    by code_simp
  have at3: "steps (task tea_steeping) ! 3 = ''enjoy''"
    by (simp add: stps)
  have at2: "steps (task tea_steeping) ! 2 = ''steep_for_20_seconds''"
    by (simp add: stps)
  from timer_expiry_advances_to_next_step [OF timer idx not_last keys to_next cur]
    timer idx step
  show ?thesis
    by (simp add: Let_def at3 at2)
qed

lemma timer_expire_effects:
  "\<exists>es. effects (final (timer_expire m)) = effects m @ es \<and>
        length (transition_attempts es) \<le> 1"
  by (auto simp add: timer_expire_def Let_def final_publish_task_state_message publish_def
        transition_attempts_def split: option.splits)

text \<open>
  Claim C3 says that the countdown publishes the remaining seconds \<open>d - 1, \<dots>, 0\<close>.
  Each pass of the loop publishes before it takes a second off the timer, so the
  messages carry \<open>d, d - 1, \<dots>, 1\<close>. As amended: started in a state whose timer holds
  \<open>d\<close>, the loop returns after adding exactly \<open>nat d\<close> messages, whose remaining seconds
  are \<open>d, d - 1, \<dots>, 1\<close>; the statements after the loop then run once on the monitor
  the loop left, and call at most one \<open>to_<state>\<close> method.
\<close>

theorem tick_snapshots_count_down:
  assumes "timer_length (task m) = Inr d"
  shows "timer_loop (nat d) m = Returned (final (timer_loop (nat d) m)) \<and>
         effects (final (timer_loop (nat d) m)) = effects m @ tick_snapshots m \<and>
         length (tick_snapshots m) = nat d \<and>
         remaining_values (tick_snapshots m) = rev [1..d] \<and>
         task_timer_thread m = timer_expire (final (timer_loop (nat d) m)) \<and>
         (\<exists>es. effects (final (task_timer_thread m)) = effects m @ tick_snapshots m @ es \<and>
               length (transition_attempts es) \<le> 1)"
proof -
  let ?ml = "final (timer_loop (nat d) m)"
  have loop: "timer_loop (nat d) m = Returned ?ml"
    by (simp add: timer_loop_eq [OF assms])
  have eff: "effects ?ml = effects m @ tick_snapshots m"
    by (simp add: timer_loop_eq [OF assms] tick_snapshots_eq [OF assms] tick_messages_0)
  have len: "length (tick_snapshots m) = nat d"
    by (simp add: tick_snapshots_eq [OF assms] tick_messages_def)
  have vals: "remaining_values (tick_snapshots m) = rev [1..d]"
    by (simp add: tick_snapshots_eq [OF assms] remaining_values_tick_messages countdown_values)
  have "and_then (timer_loop (nat d) m) timer_expire = timer_expire ?ml"
    by (metis loop and_then.simps(1))
  with assms have thread: "task_timer_thread m = timer_expire ?ml"
    by (simp add: task_timer_thread_def)
  from timer_expire_effects [of ?ml] obtain es
    where "effects (final (timer_expire ?ml)) = effects ?ml @ es"
      and "length (transition_attempts es) \<le> 1"
    by blast
  then have "\<exists>es. effects (final (task_timer_thread m)) = effects m @ tick_snapshots m @ es \<and>
               length (transition_attempts es) \<le> 1"
    using thread eff by auto
  with loop eff len vals thread show ?thesis
    by blast
qed

theorem tick_snapshots_count_down_witness:
  "timer_length (task tea_steeping) = Inr 20 \<and>
   length (tick_snapshots tea_steeping) = 20 \<and>
   remaining_values (tick_snapshots tea_steeping) =
     [20, 19, 18, 17, 16, 15, 14, 13, 12, 11, 10, 9, 8, 7, 6, 5, 4, 3, 2, 1]"
proof -
  have timer: "timer_length (task tea_steeping) = Inr 20"
    by code_simp
  have "rev [1..20] = [20, 19, 18, 17, 16, 15, 14, 13, 12, 11, 10, 9, 8, 7, 6, 5, 4, 3, 2, 1 :: int]"
    by code_simp
  with tick_snapshots_count_down [OF timer] timer
  show ?thesis by simp
qed

text \<open>
  The tea session against claim C3 as it is written: the timer holds 20 when the thread
  starts, and the messages of the countdown carry 20 down to 1, not 19 down to 0.
\<close>

theorem tick_snapshots_end_at_zero_counterexample:
  "timer_length (task tea_steeping) = Inr 20 \<and>
   remaining_values (tick_snapshots tea_steeping) = rev [1..20] \<and>
   remaining_values (tick_snapshots tea_steeping) \<noteq> rev [0..19]"
proof -
  have timer: "timer_length (task tea_steeping) = Inr 20"
    by code_simp
  have "remaining_values (tick_snapshots tea_steeping) = map (\<lambda>k. 20 - int k) [0..<nat 20]"
    by (simp only: tick_snapshots_eq [OF timer] remaining_values_tick_messages)
  also have "\<dots> = rev [1..20]"
    by (rule countdown_values)
  finally have vals: "remaining_values (tick_snapshots tea_steeping) = rev [1..20]" .
  have "rev [1..20] \<noteq> rev [0..19 :: int]"
    by code_simp
  with timer vals show ?thesis by simp
qed

subsection \<open>What no operation changes\<close>

lemma same_definition_trans:
  "same_definition m m' \<Longrightarrow> same_definition m' m'' \<Longrightarrow> same_definition m m''"
  by (simp add: same_definition_def)

lemma publish_task_state_message_task:
  "task (final (publish_task_state_message m)) = task m \<and>
   activity_action_dict (final (publish_task_state_message m)) = activity_action_dict m"
  by (simp add: final_publish_task_state_message publish_def)

lemma only_state_moved_simps [simp]:
  "only_state_moved t t"
  "only_state_moved t (t\<lparr>state := s\<rparr>)"
  by (simp_all add: only_state_moved_def)

lemma fire_fields:
  "fire trig t = Inr t' \<Longrightarrow> only_state_moved t t'"
  by (auto simp add: fire_def split: option.splits)

lemma attempt_advance_task:
  "only_state_moved (task m) (task (final (attempt_advance a m))) \<and>
   activity_action_dict (final (attempt_advance a m)) = activity_action_dict m"
  by (auto simp add: attempt_advance_def Let_def split: option.splits sum.splits
        dest: fire_fields)

lemma start_timer_task:
  "task (final (start_timer m)) = task m \<and>
   activity_action_dict (final (start_timer m)) = activity_action_dict m"
  by (simp add: start_timer_def split: sum.splits)

lemma final_and_then:
  "final (and_then r f) = (if returns r then final (f (final r)) else final r)"
  by (cases r) simp_all

lemma listener_callback_task:
  "only_state_moved (task m) (task (final (listener_callback label_vec m))) \<and>
   activity_action_dict (final (listener_callback label_vec m)) = activity_action_dict m"
proof (cases "matched_activity m label_vec")
  case None
  then show ?thesis
    by (cases label_vec)
       (simp_all add: listener_callback_def publish_task_state_message_task)
next
  case (Some a)
  let ?m1 = "m\<lparr>current_activity := Some a\<rparr>"
  show ?thesis
  proof (cases "timer_active m")
    case True
    with Some show ?thesis
      by (simp add: listener_callback_def)
  next
    case False
    have "task (final (listener_callback label_vec m)) = task (final (attempt_advance a ?m1)) \<and>
          activity_action_dict (final (listener_callback label_vec m)) =
            activity_action_dict (final (attempt_advance a ?m1))"
      using Some False
      by (simp add: listener_callback_def Let_def final_and_then
            publish_task_state_message_task start_timer_task)
    with attempt_advance_task [of ?m1 a] show ?thesis by simp
  qed
qed

lemma timer_expire_task:
  "only_state_moved (task m) (task (final (timer_expire m))) \<and>
   activity_action_dict (final (timer_expire m)) = activity_action_dict m"
  by (simp add: timer_expire_def Let_def publish_task_state_message_task
        split: option.splits)

lemma same_definition_state:
  assumes "only_state_moved (task m) (task m')"
      and "activity_action_dict m' = activity_action_dict m"
  shows "same_definition m m' \<and> machine_states (task m') = machine_states (task m)"
proof -
  from assms(1) have "task m' = (task m)\<lparr>state := state (task m')\<rparr>"
    by (simp add: only_state_moved_def)
  then have "name (task m') = name (task m) \<and> description (task m') = description (task m) \<and>
      items (task m') = items (task m) \<and> steps (task m') = steps (task m) \<and>
      transitions (task m') = transitions (task m) \<and>
      to_state_dict (task m') = to_state_dict (task m) \<and>
      machine_states (task m') = machine_states (task m)"
    by (metis Task.select_convs Task.surjective Task.update_convs)
  with assms(2) show ?thesis
    by (simp add: same_definition_def)
qed

lemma timer_loop_definition:
  assumes "timer_length (task m) = Inr d"
  shows "same_definition m (final (timer_loop n m)) \<and>
         state (task (final (timer_loop n m))) = state (task m) \<and>
         (\<forall>k. k \<noteq> state (task m) \<longrightarrow>
            map_of (machine_states (task (final (timer_loop n m)))) k =
              map_of (machine_states (task m)) k)"
  by (simp add: timer_loop_eq [OF assms] same_definition_def map_of_set_timer_length_other)

lemma timer_expire_machine_states:
  "same_definition m (final (timer_expire m)) \<and>
   machine_states (task (final (timer_expire m))) = machine_states (task m)"
  using timer_expire_task [of m] by (simp add: same_definition_state)

text \<open>
  Claim C5 says that no operation changes any field of the task definition, the
  duration of each step included. The duration of a step is the \<open>timer_length\<close> of its
  state, and the loop of the timer thread counts it down in place. As amended: the
  callback, the publishing and the timer thread leave the name, the description, the
  items, the steps, the transitions, the \<open>to_state_dict\<close>, the names and order of the
  states of the machine and the activities as they are; the callback and the publishing
  also leave every timer as it is, and the timer thread leaves the timer of every state
  but the current one as it is.
\<close>

theorem definition_fields_preserved:
  "same_definition m (final (listener_callback label_vec m)) \<and>
   machine_states (task (final (listener_callback label_vec m))) = machine_states (task m) \<and>
   same_definition m (final (publish_task_state_message m)) \<and>
   machine_states (task (final (publish_task_state_message m))) = machine_states (task m) \<and>
   same_definition m (final (task_timer_thread m)) \<and>
   (\<forall>k. k \<noteq> state (task m) \<longrightarrow>
      map_of (machine_states (task (final (task_timer_thread m)))) k =
        map_of (machine_states (task m)) k)"
proof -
  have listener: "same_definition m (final (listener_callback label_vec m)) \<and>
      machine_states (task (final (listener_callback label_vec m))) = machine_states (task m)"
    using listener_callback_task [of m label_vec] by (simp add: same_definition_state)
  have pub: "same_definition m (final (publish_task_state_message m)) \<and>
      machine_states (task (final (publish_task_state_message m))) = machine_states (task m)"
    by (simp add: publish_task_state_message_task same_definition_def)
  have thread: "same_definition m (final (task_timer_thread m)) \<and>
   (\<forall>k. k \<noteq> state (task m) \<longrightarrow>
      map_of (machine_states (task (final (task_timer_thread m)))) k =
        map_of (machine_states (task m)) k)"
  proof (cases "timer_length (task m)")
    case (Inl e)
    then show ?thesis
      by (simp add: task_timer_thread_def same_definition_def)
  next
    case (Inr d)
    let ?ml = "final (timer_loop (nat d) m)"
    have loop: "timer_loop (nat d) m = Returned ?ml"
      by (simp add: timer_loop_eq [OF Inr])
    have "and_then (timer_loop (nat d) m) timer_expire = timer_expire ?ml"
      by (metis loop and_then.simps(1))
    with Inr have thr: "task_timer_thread m = timer_expire ?ml"
      by (simp add: task_timer_thread_def)
    from timer_loop_definition [OF Inr, of "nat d"] timer_expire_machine_states [of ?ml]
    show ?thesis
      unfolding thr by (auto intro: same_definition_trans)
  qed
  from listener pub thread show ?thesis
    by blast
qed

theorem definition_fields_preserved_witness:
  "same_definition tea_steeping (final (task_timer_thread tea_steeping)) \<and>
   ''enjoy'' \<noteq> state (task tea_steeping) \<and>
   map_of (machine_states (task (final (task_timer_thread tea_steeping)))) ''enjoy'' =
     map_of (machine_states (task tea_steeping)) ''enjoy''"
proof -
  have other: "''enjoy'' \<noteq> state (task tea_steeping)"
    by code_simp
  from definition_fields_preserved [of tea_steeping "[]"] other
  show ?thesis by simp
qed

text \<open>
  The tea session against claim C5 as it is written: the steeping step is declared with
  20 seconds, one pass of the loop leaves 19 in its place, and the whole thread leaves 0.
\<close>

theorem timer_mutates_duration_counterexample:
  "map_of (machine_states (task tea_steeping)) ''steep_for_20_seconds'' = Some (Some 20) \<and>
   map_of (machine_states (task (final (timer_tick tea_steeping)))) ''steep_for_20_seconds'' =
     Some (Some 19) \<and>
   map_of (machine_states (task (final (task_timer_thread tea_steeping))))
     ''steep_for_20_seconds'' = Some (Some 0)"
  by code_simp

subsection \<open>A timer that has run once\<close>

lemma timer_expire_keeps_timers:
  "machine_states (task (final (timer_expire m))) = machine_states (task m)"
  by (simp add: timer_expire_machine_states)

text \<open>
  Claim C9. A timer thread started in \<open>m\<close>, in a state whose timer holds \<open>d \<ge> 0\<close>,
  leaves 0 as the timer of that state. Let \<open>m2\<close> be a later monitor, not in a timer,
  in which that state still has the timer the thread left, and let an observation match
  an activity whose trigger leads from the state of \<open>m2\<close> into that state. Then the
  callback returns in that state, no timer thread is started and the timer is not
  active, and the message it publishes, like every later message in that state, reports
  0 remaining seconds.
\<close>

theorem exhausted_timer_not_restarted:
  assumes "timer_length (task m) = Inr d"
      and "0 \<le> d"
      and "map_of (machine_states (task m2)) (state (task m)) =
             map_of (machine_states (task (final (task_timer_thread m)))) (state (task m))"
      and "\<not> timer_active m2"
      and "matched_activity m2 label_vec = Some a"
      and "map_of (activity_action_dict m2) a = Some trig"
      and "find (\<lambda>tr. trigger tr = trig \<and> source tr = state (task m2))
             (transitions (task m2)) = Some tr"
      and "dest tr = state (task m)"
  shows "map_of (machine_states (task (final (task_timer_thread m)))) (state (task m)) =
           Some (Some 0) \<and>
         (let m3 = final (listener_callback label_vec m2) in
            listener_callback label_vec m2 = Returned m3 \<and>
            state (task m3) = state (task m) \<and>
            current_step m3 = state (task m) \<and>
            \<not> timer_active m3 \<and>
            remaining_of (task m3) = 0 \<and>
            (\<exists>msg. effects m3 = effects m2 @ [Triggered trig, Published msg] \<and>
                   time_remaining_until_next_task msg = 0))"
proof -
  let ?s = "state (task m)"
  let ?ml = "final (timer_loop (nat d) m)"
  have loop: "timer_loop (nat d) m = Returned ?ml"
    by (simp add: timer_loop_eq [OF assms(1)])
  have "and_then (timer_loop (nat d) m) timer_expire = timer_expire ?ml"
    by (metis loop and_then.simps(1))
  with assms(1) have thr: "task_timer_thread m = timer_expire ?ml"
    by (simp add: task_timer_thread_def)
  from assms(1) have known: "state_known (task m)"
    by (rule timer_length_Inr_known)
  have "timer_length (task ?ml) = Inr 0"
  proof (cases "nat d = 0")
    case True
    with assms(1,2) show ?thesis by simp
  next
    case False
    with assms(2) known show ?thesis
      by (simp add: timer_loop_eq [OF assms(1)] timer_length_set_timer_length)
  qed
  moreover have "state (task ?ml) = ?s"
    by (simp add: timer_loop_eq [OF assms(1)])
  ultimately have "map_of (machine_states (task ?ml)) ?s = Some (Some 0)"
    by (auto simp add: timer_length_def split: option.splits)
  then have left: "map_of (machine_states (task (final (task_timer_thread m)))) ?s = Some (Some 0)"
    unfolding thr by (simp add: timer_expire_keeps_timers)
  with assms(3) have zero: "map_of (machine_states (task m2)) ?s = Some (Some 0)"
    by simp
  let ?m1 = "m2\<lparr>current_activity := Some a\<rparr>"
  let ?ma = "?m1\<lparr>effects := effects m2 @ [Triggered trig],
                  task := (task m2)\<lparr>state := ?s\<rparr>,
                  previous_step := Some (current_step m2),
                  current_step := ?s\<rparr>"
  let ?mp = "publish (message (?ma\<lparr>next_activity := peek_next_activity ?ma\<rparr>)
                                (remaining_of (task ?ma)))
                       (?ma\<lparr>next_activity := peek_next_activity ?ma\<rparr>)"
  from assms(7,8) have fired: "fire trig (task m2) = Inr ((task m2)\<lparr>state := ?s\<rparr>)"
    by (simp add: fire_def)
  with assms(6) have adv: "attempt_advance a ?m1 = Returned ?ma"
    by (simp add: attempt_advance_def Let_def)
  from zero have tl: "timer_length (task ?ma) = Inr 0"
    by (simp add: timer_length_def)
  then have rem: "remaining_of (task ?ma) = 0"
    by (simp add: remaining_of_def)
  from tl have "state_known (task ?ma)"
    by (rule timer_length_Inr_known)
  then have pub: "publish_task_state_message ?ma = Returned ?mp"
    by (rule publish_task_state_message_known)
  from tl have "timer_length (task ?mp) = Inr 0"
    by (simp add: publish_def)
  then have start: "start_timer ?mp = Returned ?mp"
    by (simp add: start_timer_def)
  have call: "listener_callback label_vec m2 = Returned ?mp"
    using assms(4,5) adv pub start by (simp add: listener_callback_def Let_def)
  have right: "let m3 = final (listener_callback label_vec m2) in
            listener_callback label_vec m2 = Returned m3 \<and>
            state (task m3) = state (task m) \<and>
            current_step m3 = state (task m) \<and>
            \<not> timer_active m3 \<and>
            remaining_of (task m3) = 0 \<and>
            (\<exists>msg. effects m3 = effects m2 @ [Triggered trig, Published msg] \<and>
                   time_remaining_until_next_task msg = 0)"
    unfolding call using assms(4) rem
    by (simp add: Let_def publish_def message_def)
  from left right show ?thesis by blast
qed

theorem exhausted_timer_not_restarted_witness:
  "timer_length (task rinse_soaking) = Inr 2 \<and>
   state (task rinse_soaking) = ''soak'' \<and>
   state (task rinse_draining) = ''drain'' \<and>
   map_of (machine_states (task rinse_draining)) ''soak'' = Some (Some 0) \<and>
   state (task (final (listener_callback [''refilling''] rinse_draining))) = ''soak'' \<and>
   \<not> timer_active (final (listener_callback [''refilling''] rinse_draining)) \<and>
   remaining_of (task (final (listener_callback [''refilling''] rinse_draining))) = 0"
proof -
  let ?tr = "\<lparr>trigger = ''refilled'', source = ''drain'', dest = ''soak''\<rparr>"
  have timer: "timer_length (task rinse_soaking) = Inr 2"
    by code_simp
  have nonneg: "(0::int) \<le> 2"
    by simp
  have later: "map_of (machine_states (task rinse_draining)) (state (task rinse_soaking)) =
      map_of (machine_states (task (final (task_timer_thread rinse_soaking))))
        (state (task rinse_soaking))"
    by (simp add: rinse_draining_def)
  have idle: "\<not> timer_active rinse_draining"
    by code_simp
  have matched: "matched_activity rinse_draining [''refilling''] = Some ''refilling''"
    by code_simp
  have trig: "map_of (activity_action_dict rinse_draining) ''refilling'' = Some ''refilled''"
    by code_simp
  have first: "find (\<lambda>tr. trigger tr = ''refilled'' \<and> source tr = state (task rinse_draining))
             (transitions (task rinse_draining)) = Some ?tr"
    by code_simp
  have reenter: "dest ?tr = state (task rinse_soaking)"
    by code_simp
  have soak: "state (task rinse_soaking) = ''soak''"
    by code_simp
  have drain: "state (task rinse_draining) = ''drain''"
    by code_simp
  from exhausted_timer_not_restarted [OF timer nonneg later idle matched trig first reenter] timer soak drain
  show ?thesis
    by (simp add: Let_def rinse_draining_def)
qed

subsection \<open>The step the monitor reports is the state of the task\<close>

text \<open>
  \<open>current_step\<close> is assigned wherever the state of the task may have changed, so the
  two agree after the construction, after every callback and after every timer thread.
\<close>

lemma listener_callback_tracks_state:
  assumes "current_step m = state (task m)"
  shows "current_step (final (listener_callback label_vec m)) =
           state (task (final (listener_callback label_vec m)))"
  using assms
  by (auto simp add: listener_callback_def Let_def final_and_then attempt_advance_def
        final_publish_task_state_message publish_def start_timer_def fire_def
        split: option.splits list.splits sum.splits)

lemma timer_expire_tracks_state:
  assumes "current_step m = state (task m)"
  shows "current_step (final (timer_expire m)) = state (task (final (timer_expire m)))"
  using assms
  by (auto simp add: timer_expire_def Let_def final_publish_task_state_message publish_def
        split: option.splits)

lemma task_timer_thread_tracks_state:
  assumes "current_step m = state (task m)"
  shows "current_step (final (task_timer_thread m)) =
           state (task (final (task_timer_thread m)))"
proof (cases "timer_length (task m)")
  case (Inl e)
  with assms show ?thesis
    by (simp add: task_timer_thread_def)
next
  case (Inr d)
  let ?ml = "final (timer_loop (nat d) m)"
  have loop: "timer_loop (nat d) m = Returned ?ml"
    by (simp add: timer_loop_eq [OF Inr])
  have "and_then (timer_loop (nat d) m) timer_expire = timer_expire ?ml"
    by (metis loop and_then.simps(1))
  with Inr have thr: "task_timer_thread m = timer_expire ?ml"
    by (simp add: task_timer_thread_def)
  from assms have "current_step ?ml = state (task ?ml)"
    by (simp add: timer_loop_eq [OF Inr])
  then show ?thesis
    unfolding thr by (rule timer_expire_tracks_state)
qed

lemma TaskMonitor_init_tracks_state:
  "current_step (final TaskMonitor_init) = state (task (final TaskMonitor_init))"
  by (simp add: TaskMonitor_init_def final_publish_task_state_message publish_def)

end
